theory Spec2Isabelle
  imports Main "HOL-Library.Word"
begin

section \<open>The Xserve front-panel driver (xserve-frontpanel.c)\<close>

text \<open>
  A shallow embedding of the driver's write path, completion callback, CPU sampler and
  lifecycle hooks. Kernel state that the driver owns is a record that every function
  takes and returns; what the kernel decides (allocation, the result of a submission,
  which transfers complete when, the CPU counters) is an explicit environment argument.
\<close>

subsection \<open>Constants\<close>

type_synonym u8 = "8 word"
type_synonym u32 = "32 word"
type_synonym u64 = "64 word"

definition PANEL_DATA_SIZE :: nat where "PANEL_DATA_SIZE = 32"
definition WRITES_IN_FLIGHT :: nat where "WRITES_IN_FLIGHT = 8"
definition CPU_SAMPLING_RATE :: nat where "CPU_SAMPLING_RATE = 250"

text \<open>The errno values of \<^verbatim>\<open>linux/errno.h\<close> that the driver names.\<close>

definition ENOENT :: int where "ENOENT = 2"
definition EIO :: int where "EIO = 5"
definition EAGAIN :: int where "EAGAIN = 11"
definition ENOMEM :: int where "ENOMEM = 12"
definition ENODEV :: int where "ENODEV = 19"
definition EPIPE :: int where "EPIPE = 32"
definition ECONNRESET :: int where "ECONNRESET = 104"
definition ESHUTDOWN :: int where "ESHUTDOWN = 108"

subsection \<open>Data\<close>

text \<open>\<^verbatim>\<open>struct rackmeter_cpu\<close>: the counters read in the previous cycle.\<close>

record rackmeter_cpu =
  prev_wall :: u64
  prev_idle :: u64

text \<open>
  The part of \<^verbatim>\<open>struct urb\<close> the driver reads and writes: the coherent transfer
  buffer, its length, and the completion status the USB core stores before it calls
  the completion handler.
\<close>

record urb =
  transfer_buffer :: "u8 list"
  transfer_buffer_length :: nat
  status :: int

text \<open>Messages the driver prints with \<^verbatim>\<open>dev_err\<close>.\<close>

datatype log_msg =
  Nonzero_write_bulk_status int
  | Failed_submitting_write_urb int
  | Write_failed int

text \<open>
  \<^verbatim>\<open>struct usb_frontpanel\<close>. The semaphore \<^verbatim>\<open>limit_sem\<close> is its count; the anchor
  \<^verbatim>\<open>submitted\<close> is the list of anchored URBs, oldest first; \<^verbatim>\<open>kref\<close> is the reference
  count; \<^verbatim>\<open>sniffer\<close> says whether the delayed work is scheduled. \<^verbatim>\<open>dmesg\<close> collects
  what the driver logs for this device. The arrays \<^verbatim>\<open>buffer\<close> and \<^verbatim>\<open>cpu\<close> are lists
  of \<^verbatim>\<open>PANEL_DATA_SIZE\<close> and of 16 elements. \<open>freed\<close> is not a field of the
  structure: it records that \<^verbatim>\<open>frontpanel_delete\<close> has given the memory back with
  \<^verbatim>\<open>kfree\<close>, after which the structure no longer exists.
\<close>

record usb_frontpanel =
  limit_sem :: nat
  submitted :: "urb list"
  errors :: int
  kref :: nat
  bulk_out_endpointAddr :: u8
  disconnected :: bool
  sniffer :: bool
  buffer :: "u8 list"
  cpu :: "rackmeter_cpu list"
  dmesg :: "log_msg list"
  freed :: bool

subsection \<open>Kernel primitives used by the driver\<close>

text \<open>
  \<^verbatim>\<open>down_trylock\<close> returns 0 and takes the semaphore when its count is positive, and
  returns 1 without waiting otherwise. \<^verbatim>\<open>up\<close> gives one count back (the driver never
  sleeps on the semaphore, so there is never a waiter to wake).
\<close>

definition down_trylock :: "usb_frontpanel \<Rightarrow> int \<times> usb_frontpanel" where
  "down_trylock dev =
     (if limit_sem dev = 0 then (1, dev) else (0, dev\<lparr>limit_sem := limit_sem dev - 1\<rparr>))"

definition up :: "usb_frontpanel \<Rightarrow> usb_frontpanel" where
  "up dev = dev\<lparr>limit_sem := Suc (limit_sem dev)\<rparr>"

definition dev_err :: "log_msg \<Rightarrow> usb_frontpanel \<Rightarrow> usb_frontpanel" where
  "dev_err m dev = dev\<lparr>dmesg := dmesg dev @ [m]\<rparr>"

text \<open>\<^verbatim>\<open>usb_anchor_urb\<close> appends to the anchor's list; \<^verbatim>\<open>usb_unanchor_urb\<close> takes the
  URB at a position out of it.\<close>

definition usb_anchor_urb :: "urb \<Rightarrow> usb_frontpanel \<Rightarrow> usb_frontpanel" where
  "usb_anchor_urb u dev = dev\<lparr>submitted := submitted dev @ [u]\<rparr>"

definition usb_unanchor_urb :: "nat \<Rightarrow> usb_frontpanel \<Rightarrow> usb_frontpanel" where
  "usb_unanchor_urb i dev =
     dev\<lparr>submitted := take i (submitted dev) @ drop (Suc i) (submitted dev)\<rparr>"

subsection \<open>The completion callback\<close>

definition benign_status :: "int \<Rightarrow> bool" where
  "benign_status st \<longleftrightarrow> st = - ENOENT \<or> st = - ECONNRESET \<or> st = - ESHUTDOWN"

text \<open>
  \<^verbatim>\<open>frontpanel_write_bulk_callback\<close>: a non-zero status is logged unless it is one of
  the three unlink codes, and is stored in \<^verbatim>\<open>dev->errors\<close> in either case; then the
  buffer is freed and the semaphore is given back.
\<close>

definition frontpanel_write_bulk_callback :: "urb \<Rightarrow> usb_frontpanel \<Rightarrow> usb_frontpanel" where
  "frontpanel_write_bulk_callback u dev =
     (let dev1 =
        (if status u \<noteq> 0 then
           (let dev0 = (if \<not> benign_status (status u)
                        then dev_err (Nonzero_write_bulk_status (status u)) dev
                        else dev)
            in dev0\<lparr>errors := status u\<rparr>)
         else dev)
      in up dev1)"

subsection \<open>The write path\<close>

text \<open>
  What the kernel decides during one call of \<^verbatim>\<open>frontpanel_write\<close>: whether
  \<^verbatim>\<open>usb_alloc_urb\<close> and \<^verbatim>\<open>usb_alloc_coherent\<close> return memory, and what
  \<^verbatim>\<open>usb_submit_urb\<close> returns.
\<close>

record write_env =
  urb_alloc_ok :: bool
  coherent_alloc_ok :: bool
  submit_ret :: int

text \<open>
  \<^verbatim>\<open>frontpanel_write(dev, buffer, count)\<close>. The caller's buffer is the list
  \<open>payload\<close>, of which \<^verbatim>\<open>memcpy\<close> reads the first \<open>writesize\<close> bytes. The result is
  the returned \<^verbatim>\<open>ssize_t\<close> and the device afterwards. The labels \<^verbatim>\<open>error_unanchor\<close>,
  \<^verbatim>\<open>error\<close> and \<^verbatim>\<open>exit\<close> of the source are the three ways out below: every
  \<^verbatim>\<open>goto error\<close> ends in \<open>up\<close>.
\<close>

definition frontpanel_write ::
  "write_env \<Rightarrow> usb_frontpanel \<Rightarrow> u8 list \<Rightarrow> nat \<Rightarrow> int \<times> usb_frontpanel" where
  "frontpanel_write env dev payload count =
     (let writesize = min count PANEL_DATA_SIZE;
          (locked, dev1) = down_trylock dev
      in if locked \<noteq> 0 then (- EAGAIN, dev1)
         else
           let retval = errors dev1;
               dev2 = (if retval < 0 then dev1\<lparr>errors := 0\<rparr> else dev1);
               retval = (if retval < 0 then (if retval = - EPIPE then retval else - EIO)
                         else retval)
           in if retval < 0 then (retval, up dev2)
              else if \<not> urb_alloc_ok env then (- ENOMEM, up dev2)
              else if \<not> coherent_alloc_ok env then (- ENOMEM, up dev2)
              else
                let buf = take writesize payload
                in if disconnected dev2 then (- ENODEV, up dev2)
                   else
                     let u = \<lparr>transfer_buffer = buf, transfer_buffer_length = writesize,
                              status = 0\<rparr>;
                         pos = length (submitted dev2);
                         dev3 = usb_anchor_urb u dev2;
                         retval = submit_ret env
                     in if retval \<noteq> 0 then
                          (retval,
                           up (usb_unanchor_urb pos
                                 (dev_err (Failed_submitting_write_urb retval) dev3)))
                        else (int writesize, dev3))"

subsection \<open>The USB core: completion and cancellation\<close>

text \<open>
  The USB core completes an anchored URB by taking it off its anchor, storing the
  status and calling the URB's completion handler, here
  \<^verbatim>\<open>frontpanel_write_bulk_callback\<close>. The URB is named by its position in the
  anchor; a position beyond the anchor names no outstanding transfer and nothing
  happens.
\<close>

definition usb_hcd_giveback_urb :: "nat \<Rightarrow> int \<Rightarrow> usb_frontpanel \<Rightarrow> usb_frontpanel" where
  "usb_hcd_giveback_urb i st dev =
     (if i < length (submitted dev)
      then frontpanel_write_bulk_callback ((submitted dev ! i)\<lparr>status := st\<rparr>)
             (usb_unanchor_urb i dev)
      else dev)"

text \<open>
  \<^verbatim>\<open>usb_kill_anchored_urbs\<close> kills the anchored URBs from the tail of the list until
  the anchor is empty; a killed transfer completes with status \<^verbatim>\<open>-ENOENT\<close>.
\<close>

fun kill_urbs :: "nat \<Rightarrow> usb_frontpanel \<Rightarrow> usb_frontpanel" where
  "kill_urbs 0 dev = dev"
| "kill_urbs (Suc n) dev =
     kill_urbs n (usb_hcd_giveback_urb (length (submitted dev) - 1) (- ENOENT) dev)"

definition usb_kill_anchored_urbs :: "usb_frontpanel \<Rightarrow> usb_frontpanel" where
  "usb_kill_anchored_urbs dev = kill_urbs (length (submitted dev)) dev"

text \<open>
  \<^verbatim>\<open>usb_wait_anchor_empty_timeout(anchor, timeout)\<close> sleeps until the anchor is empty
  or \<open>timeout\<close> milliseconds have passed, and returns 0 when the time ran out with the
  anchor still occupied, else the time left (at least 1). What completes while it
  sleeps is the environment's: a list of arrivals \<open>(t, i, st)\<close> in order of time, each
  the completion, \<open>t\<close> milliseconds after the wait began, of the URB at position \<open>i\<close>
  with status \<open>st\<close>.
\<close>

type_synonym arrival = "nat \<times> nat \<times> int"

fun usb_wait_anchor_empty_timeout ::
  "arrival list \<Rightarrow> nat \<Rightarrow> usb_frontpanel \<Rightarrow> nat \<times> usb_frontpanel" where
  "usb_wait_anchor_empty_timeout [] timeout dev =
     (if submitted dev = [] then (max 1 timeout, dev) else (0, dev))"
| "usb_wait_anchor_empty_timeout ((t, i, st) # rest) timeout dev =
     (if submitted dev = [] then (max 1 timeout, dev)
      else if timeout < t then (0, dev)
      else
        let dev' = usb_hcd_giveback_urb i st dev
        in if submitted dev' = [] then (max 1 (timeout - t), dev')
           else usb_wait_anchor_empty_timeout rest timeout dev')"

subsection \<open>The CPU sampler\<close>

text \<open>
  A division by zero in \<^verbatim>\<open>div64_u64\<close> is a divide fault in the kernel: the work
  function does not return.
\<close>

datatype fault = Divide_error

definition div64_u64 :: "u64 \<Rightarrow> u64 \<Rightarrow> fault + u64" where
  "div64_u64 dividend divisor =
     (if divisor = 0 then Inl Divide_error else Inr (dividend div divisor))"

text \<open>
  The two differences are \<^verbatim>\<open>s64\<close>: the subtraction of the \<^verbatim>\<open>u64\<close> counters wraps and
  the comparison is signed.
\<close>

definition diff_idle_of :: "rackmeter_cpu \<Rightarrow> u64 \<Rightarrow> u64" where
  "diff_idle_of rcpu cpu_idle = cpu_idle - prev_idle rcpu"

definition diff_wall_of :: "rackmeter_cpu \<Rightarrow> u64 \<Rightarrow> u64 \<Rightarrow> u64" where
  "diff_wall_of rcpu cpu_idle cpu_wall =
     (let diff_idle = diff_idle_of rcpu cpu_idle;
          diff_wall = cpu_wall - prev_wall rcpu
      in if diff_wall <s diff_idle then diff_idle else diff_wall)"

text \<open>
  \<^verbatim>\<open>load = div64_u64(255 * (diff_wall - diff_idle), diff_wall)\<close>: the product is
  computed in 64 bits (the kernel is built with wrapping signed arithmetic), the
  quotient is unsigned and is cut to the 32 bits of \<^verbatim>\<open>unsigned int load\<close>.
\<close>

definition rackmeter_load :: "rackmeter_cpu \<Rightarrow> u64 \<Rightarrow> u64 \<Rightarrow> fault + u32" where
  "rackmeter_load rcpu cpu_idle cpu_wall =
     (let diff_idle = diff_idle_of rcpu cpu_idle;
          diff_wall = diff_wall_of rcpu cpu_idle cpu_wall
      in case div64_u64 (255 * (diff_wall - diff_idle)) diff_wall of
           Inl f \<Rightarrow> Inl f
         | Inr q \<Rightarrow> Inr (ucast q))"

text \<open>
  What the kernel supplies to one run of the work function: the online CPUs
  (\<^verbatim>\<open>for_each_online_cpu\<close> walks the set bits of the online mask upwards),
  \<^verbatim>\<open>get_cpu_idle_time\<close> giving a core's idle and wall time, and the environment of
  the write the cycle may make.
\<close>

record timer_env =
  nr_cpu_ids :: nat
  cpu_online_mask :: "nat \<Rightarrow> bool"
  get_cpu_idle_time :: "nat \<Rightarrow> u64 \<times> u64"
  wenv :: write_env

definition online_cpus :: "timer_env \<Rightarrow> nat list" where
  "online_cpus env = filter (cpu_online_mask env) [0..<nr_cpu_ids env]"

text \<open>The body of the loop of \<^verbatim>\<open>rackmeter_do_timer\<close> for core \<open>c\<close>.\<close>

definition rackmeter_do_cpu ::
  "timer_env \<Rightarrow> nat \<Rightarrow> usb_frontpanel \<times> bool \<Rightarrow> fault + usb_frontpanel \<times> bool" where
  "rackmeter_do_cpu env c acc =
     (let (dev, updated) = acc
      in if c > 15 then Inr (dev, updated)
         else
           let rcpu = cpu dev ! c;
               (cpu_idle, cpu_wall) = get_cpu_idle_time env c
           in case rackmeter_load rcpu cpu_idle cpu_wall of
                Inl f \<Rightarrow> Inl f
              | Inr load \<Rightarrow>
                  let changed = (buffer dev ! c \<noteq> (ucast load :: u8));
                      dev1 = (if changed then dev\<lparr>buffer := (buffer dev)[c := ucast load]\<rparr>
                              else dev);
                      dev2 = dev1\<lparr>cpu := (cpu dev1)[c := \<lparr>prev_wall = cpu_wall,
                                                          prev_idle = cpu_idle\<rparr>]\<rparr>
                  in Inr (dev2, updated \<or> changed))"

fun rackmeter_cpu_loop ::
  "timer_env \<Rightarrow> nat list \<Rightarrow> usb_frontpanel \<times> bool \<Rightarrow> fault + usb_frontpanel \<times> bool" where
  "rackmeter_cpu_loop env [] acc = Inr acc"
| "rackmeter_cpu_loop env (c # cs) acc =
     (case rackmeter_do_cpu env c acc of
        Inl f \<Rightarrow> Inl f
      | Inr acc' \<Rightarrow> rackmeter_cpu_loop env cs acc')"

text \<open>A call of \<^verbatim>\<open>frontpanel_write\<close> as the sampler makes it: the bytes passed, the
  count and the value returned.\<close>

type_synonym write_call = "u8 list \<times> nat \<times> int"

text \<open>
  \<^verbatim>\<open>rackmeter_do_timer\<close>: the loop over the cores, then at most one write of
  \<^verbatim>\<open>dev->buffer\<close>, then the work reschedules itself. The result is the device
  afterwards and the calls of \<^verbatim>\<open>frontpanel_write\<close> made, or the fault.
\<close>

definition rackmeter_do_timer ::
  "timer_env \<Rightarrow> usb_frontpanel \<Rightarrow> fault + usb_frontpanel \<times> write_call list" where
  "rackmeter_do_timer env dev =
     (case rackmeter_cpu_loop env (online_cpus env) (dev, False) of
        Inl f \<Rightarrow> Inl f
      | Inr (dev1, updated) \<Rightarrow>
          let (dev2, calls) =
                (if updated then
                   (let (ret, d) = frontpanel_write (wenv env) dev1 (buffer dev1) PANEL_DATA_SIZE;
                        d' = (if ret \<le> 0 then dev_err (Write_failed ret) d else d)
                    in (d', [(buffer dev1, PANEL_DATA_SIZE, ret)]))
                 else (dev1, []))
          in Inr (dev2\<lparr>sniffer := True\<rparr>, calls))"

fun init_cpus :: "nat list \<Rightarrow> usb_frontpanel \<Rightarrow> usb_frontpanel" where
  "init_cpus [] dev = dev"
| "init_cpus (c # cs) dev =
     init_cpus cs (if c > 15 then dev
                   else dev\<lparr>cpu := (cpu dev)[c := \<lparr>prev_wall = 0, prev_idle = 0\<rparr>]\<rparr>)"

definition rackmeter_init_cpu_sniffer :: "nat list \<Rightarrow> usb_frontpanel \<Rightarrow> usb_frontpanel" where
  "rackmeter_init_cpu_sniffer online dev = (init_cpus online dev)\<lparr>sniffer := True\<rparr>"

definition rackmeter_stop_cpu_sniffer :: "usb_frontpanel \<Rightarrow> usb_frontpanel" where
  "rackmeter_stop_cpu_sniffer dev = dev\<lparr>sniffer := False\<rparr>"

subsection \<open>Lifecycle hooks\<close>

text \<open>
  \<^verbatim>\<open>frontpanel_delete\<close> releases the interface and the device and frees the
  structure. \<^verbatim>\<open>kref_put\<close> drops one reference and calls it when the count reaches
  zero.
\<close>

definition frontpanel_delete :: "usb_frontpanel \<Rightarrow> usb_frontpanel" where
  "frontpanel_delete dev = dev\<lparr>freed := True\<rparr>"

definition kref_put :: "usb_frontpanel \<Rightarrow> usb_frontpanel" where
  "kref_put dev =
     (let dev1 = dev\<lparr>kref := kref dev - 1\<rparr>
      in if kref dev1 = 0 then frontpanel_delete dev1 else dev1)"

record probe_env =
  kzalloc_ok :: bool
  find_endpoints_ret :: int
  bEndpointAddress :: u8
  online_at_probe :: "nat list"

text \<open>The device as \<^verbatim>\<open>kzalloc\<close> and the initialisers of \<^verbatim>\<open>frontpanel_probe\<close> leave it.
  When no bulk-out endpoint is found, the probe drops its reference, which frees the
  structure, and no device remains.\<close>

definition fresh_dev :: usb_frontpanel where
  "fresh_dev =
     \<lparr>limit_sem = WRITES_IN_FLIGHT, submitted = [], errors = 0, kref = 1,
      bulk_out_endpointAddr = 0, disconnected = False, sniffer = False,
      buffer = replicate PANEL_DATA_SIZE 0,
      cpu = replicate 16 \<lparr>prev_wall = 0, prev_idle = 0\<rparr>, dmesg = [],
      freed = False\<rparr>"

definition frontpanel_probe :: "probe_env \<Rightarrow> int \<times> usb_frontpanel option" where
  "frontpanel_probe env =
     (if \<not> kzalloc_ok env then (- ENOMEM, None)
      else if find_endpoints_ret env \<noteq> 0 then (find_endpoints_ret env, None)
      else (0, Some (rackmeter_init_cpu_sniffer (online_at_probe env)
                       (fresh_dev\<lparr>bulk_out_endpointAddr := bEndpointAddress env\<rparr>))))"

text \<open>
  \<^verbatim>\<open>frontpanel_disconnect\<close>: stop the sampler, set the flag (under \<^verbatim>\<open>io_mutex\<close>, which
  in this sequential model is the atomicity of a step), kill what is anchored, drop the
  reference. The probe's reference is the only one the driver ever takes, so this
  \<^verbatim>\<open>kref_put\<close> frees the structure.
\<close>

definition frontpanel_disconnect :: "usb_frontpanel \<Rightarrow> usb_frontpanel" where
  "frontpanel_disconnect dev =
     (let dev1 = rackmeter_stop_cpu_sniffer dev;
          dev2 = dev1\<lparr>disconnected := True\<rparr>;
          dev3 = usb_kill_anchored_urbs dev2
      in kref_put dev3)"

definition frontpanel_draw_down :: "arrival list \<Rightarrow> usb_frontpanel \<Rightarrow> usb_frontpanel" where
  "frontpanel_draw_down arrivals dev =
     (let (time, dev1) = usb_wait_anchor_empty_timeout arrivals 1000 dev
      in if time = 0 then usb_kill_anchored_urbs dev1 else dev1)"

text \<open>\<^verbatim>\<open>frontpanel_suspend\<close>; \<open>None\<close> is the interface without driver data.\<close>

definition frontpanel_suspend ::
  "arrival list \<Rightarrow> usb_frontpanel option \<Rightarrow> int \<times> usb_frontpanel option" where
  "frontpanel_suspend arrivals intfdata =
     (case intfdata of
        None \<Rightarrow> (0, None)
      | Some dev \<Rightarrow> (0, Some (frontpanel_draw_down arrivals dev)))"

subsection \<open>Runs\<close>

text \<open>
  What can happen to an attached device, one at a time. Nothing happens to a device that
  has been freed: \<^verbatim>\<open>cancel_delayed_work_sync\<close> has stopped the sampler, the only
  caller of \<^verbatim>\<open>frontpanel_write\<close>, every anchored URB has been killed, and the
  structure is gone.
\<close>

datatype event =
  Write write_env "u8 list" nat
  | Complete nat int
  | Suspend "arrival list"
  | Disconnect

fun fire :: "usb_frontpanel \<Rightarrow> event \<Rightarrow> usb_frontpanel" where
  "fire dev (Write env payload count) = snd (frontpanel_write env dev payload count)"
| "fire dev (Complete i st) = usb_hcd_giveback_urb i st dev"
| "fire dev (Suspend arrivals) = frontpanel_draw_down arrivals dev"
| "fire dev Disconnect = frontpanel_disconnect dev"

definition step :: "usb_frontpanel \<Rightarrow> event \<Rightarrow> usb_frontpanel" where
  "step dev ev = (if freed dev then dev else fire dev ev)"

definition run :: "usb_frontpanel \<Rightarrow> event list \<Rightarrow> usb_frontpanel" where
  "run dev evs = foldl step dev evs"

text \<open>A sequence of writes with no completion between them: the values returned and
  the device afterwards.\<close>

fun writes ::
  "(write_env \<times> u8 list \<times> nat) list \<Rightarrow> usb_frontpanel \<Rightarrow> int list \<times> usb_frontpanel" where
  "writes [] dev = ([], dev)"
| "writes ((env, payload, count) # ws) dev =
     (let (r, dev1) = frontpanel_write env dev payload count;
          (rs, dev2) = writes ws dev1
      in (r # rs, dev2))"

subsection \<open>Sample inputs\<close>

text \<open>Concrete environments and devices at which the properties below are exercised.\<close>

definition EPROTO :: int where "EPROTO = 71"

definition ok_env :: write_env where
  "ok_env = \<lparr>urb_alloc_ok = True, coherent_alloc_ok = True, submit_ret = 0\<rparr>"

definition nomem_env :: write_env where
  "nomem_env = \<lparr>urb_alloc_ok = False, coherent_alloc_ok = True, submit_ret = 0\<rparr>"

definition zero_payload :: "u8 list" where
  "zero_payload = replicate 32 0"

definition zero_urb :: urb where
  "zero_urb = \<lparr>transfer_buffer = zero_payload, transfer_buffer_length = 32, status = 0\<rparr>"

definition lit_payload :: "u8 list" where
  "lit_payload = 255 # replicate 31 0"

definition lit_urb :: urb where
  "lit_urb = \<lparr>transfer_buffer = lit_payload, transfer_buffer_length = 32, status = 0\<rparr>"

text \<open>A machine whose only core is online and reads the given idle and wall time.\<close>

definition core0_env :: "u64 \<Rightarrow> u64 \<Rightarrow> write_env \<Rightarrow> timer_env" where
  "core0_env idle wall w =
     \<lparr>nr_cpu_ids = 1, cpu_online_mask = (\<lambda>c. True),
      get_cpu_idle_time = (\<lambda>c. (idle, wall)), wenv = w\<rparr>"

text \<open>
  The device after a first cycle that found core 0 fully busy and wrote the payload;
  after a second cycle that found it idle and whose write failed for lack of memory;
  and after a third cycle that found it busy, or idle, again.
\<close>

definition cycle1_dev :: usb_frontpanel where
  "cycle1_dev = fresh_dev\<lparr>limit_sem := 7, submitted := [lit_urb], sniffer := True,
     buffer := lit_payload,
     cpu := (cpu fresh_dev)[0 := \<lparr>prev_wall = 1000, prev_idle = 0\<rparr>]\<rparr>"

definition cycle2_dev :: usb_frontpanel where
  "cycle2_dev = cycle1_dev\<lparr>buffer := zero_payload,
     cpu := (cpu fresh_dev)[0 := \<lparr>prev_wall = 2000, prev_idle = 1000\<rparr>],
     dmesg := [Write_failed (- ENOMEM)]\<rparr>"

definition cycle3_dev :: usb_frontpanel where
  "cycle3_dev = cycle2_dev\<lparr>limit_sem := 6, submitted := [lit_urb, lit_urb],
     buffer := lit_payload,
     cpu := (cpu fresh_dev)[0 := \<lparr>prev_wall = 3000, prev_idle = 1000\<rparr>]\<rparr>"

definition cycle3_dev_idle :: usb_frontpanel where
  "cycle3_dev_idle = cycle2_dev\<lparr>
     cpu := (cpu fresh_dev)[0 := \<lparr>prev_wall = 3000, prev_idle = 2000\<rparr>]\<rparr>"

text \<open>A probe that succeeds on a machine with two cores, and the device it leaves.\<close>

definition ok_probe_env :: probe_env where
  "ok_probe_env = \<lparr>kzalloc_ok = True, find_endpoints_ret = 0, bEndpointAddress = 2,
                    online_at_probe = [0, 1]\<rparr>"

definition probed_dev :: usb_frontpanel where
  "probed_dev = fresh_dev\<lparr>bulk_out_endpointAddr := 2, sniffer := True\<rparr>"

text \<open>Eight writes of which the first fails for lack of memory.\<close>

definition one_failed_writes :: "(write_env \<times> u8 list \<times> nat) list" where
  "one_failed_writes =
     (nomem_env, zero_payload, 32) # replicate 7 (ok_env, zero_payload, 32)"

text \<open>A device with two writes in flight.\<close>

definition two_in_flight_dev :: usb_frontpanel where
  "two_in_flight_dev = fresh_dev\<lparr>limit_sem := 6, submitted := [zero_urb, zero_urb]\<rparr>"

section \<open>Properties\<close>

subsection \<open>Auxiliary facts\<close>

lemmas errno_defs =
  ENOENT_def EIO_def EAGAIN_def ENOMEM_def ENODEV_def EPIPE_def ECONNRESET_def ESHUTDOWN_def

lemma frontpanel_write_eq:
  "frontpanel_write env dev payload count =
     (if limit_sem dev = 0 then (- EAGAIN, dev)
      else if errors dev < 0 then
        ((if errors dev = - EPIPE then - EPIPE else - EIO), dev\<lparr>errors := 0\<rparr>)
      else if \<not> urb_alloc_ok env \<or> \<not> coherent_alloc_ok env then (- ENOMEM, dev)
      else if disconnected dev then (- ENODEV, dev)
      else if submit_ret env \<noteq> 0 then
        (submit_ret env, dev_err (Failed_submitting_write_urb (submit_ret env)) dev)
      else (int (min count PANEL_DATA_SIZE),
            dev\<lparr>limit_sem := limit_sem dev - 1,
                submitted := submitted dev @
                  [\<lparr>transfer_buffer = take (min count PANEL_DATA_SIZE) payload,
                    transfer_buffer_length = min count PANEL_DATA_SIZE, status = 0\<rparr>]\<rparr>))"
  by (simp add: frontpanel_write_def down_trylock_def up_def usb_anchor_urb_def
      usb_unanchor_urb_def dev_err_def Let_def errno_defs)

lemma callback_fields:
  "limit_sem (frontpanel_write_bulk_callback u dev) = Suc (limit_sem dev)"
  "submitted (frontpanel_write_bulk_callback u dev) = submitted dev"
  "disconnected (frontpanel_write_bulk_callback u dev) = disconnected dev"
  "sniffer (frontpanel_write_bulk_callback u dev) = sniffer dev"
  "buffer (frontpanel_write_bulk_callback u dev) = buffer dev"
  "cpu (frontpanel_write_bulk_callback u dev) = cpu dev"
  "kref (frontpanel_write_bulk_callback u dev) = kref dev"
  "freed (frontpanel_write_bulk_callback u dev) = freed dev"
  "errors (frontpanel_write_bulk_callback u dev) = (if status u \<noteq> 0 then status u else errors dev)"
  by (simp_all add: frontpanel_write_bulk_callback_def up_def dev_err_def Let_def)

lemma giveback_fields:
  "disconnected (usb_hcd_giveback_urb i st dev) = disconnected dev"
  "sniffer (usb_hcd_giveback_urb i st dev) = sniffer dev"
  "buffer (usb_hcd_giveback_urb i st dev) = buffer dev"
  "cpu (usb_hcd_giveback_urb i st dev) = cpu dev"
  "kref (usb_hcd_giveback_urb i st dev) = kref dev"
  "freed (usb_hcd_giveback_urb i st dev) = freed dev"
  by (simp_all add: usb_hcd_giveback_urb_def callback_fields usb_unanchor_urb_def)

lemma giveback_slots:
  "i < length (submitted dev) \<Longrightarrow>
     limit_sem (usb_hcd_giveback_urb i st dev) = Suc (limit_sem dev) \<and>
     length (submitted (usb_hcd_giveback_urb i st dev)) = length (submitted dev) - 1"
  by (auto simp add: usb_hcd_giveback_urb_def callback_fields usb_unanchor_urb_def)

lemma giveback_conserves:
  "limit_sem (usb_hcd_giveback_urb i st dev) + length (submitted (usb_hcd_giveback_urb i st dev))
     = limit_sem dev + length (submitted dev)"
proof (cases "i < length (submitted dev)")
  case True
  then show ?thesis using giveback_slots [OF True, of st] by simp
next
  case False
  then show ?thesis by (simp add: usb_hcd_giveback_urb_def)
qed

lemma kill_urbs_slots:
  "n \<le> length (submitted dev) \<Longrightarrow>
     limit_sem (kill_urbs n dev) = limit_sem dev + n \<and>
     length (submitted (kill_urbs n dev)) = length (submitted dev) - n"
proof (induction n arbitrary: dev)
  case 0
  then show ?case by simp
next
  case (Suc n)
  let ?d = "usb_hcd_giveback_urb (length (submitted dev) - 1) (- ENOENT) dev"
  from Suc.prems have lt: "length (submitted dev) - 1 < length (submitted dev)" by simp
  note g = giveback_slots [OF lt, of "- ENOENT"]
  from Suc.prems g have "n \<le> length (submitted ?d)" by simp
  from Suc.IH [OF this] g Suc.prems show ?case by simp
qed

lemma kill_urbs_fields:
  "disconnected (kill_urbs n dev) = disconnected dev"
  "sniffer (kill_urbs n dev) = sniffer dev"
  "buffer (kill_urbs n dev) = buffer dev"
  "cpu (kill_urbs n dev) = cpu dev"
  "kref (kill_urbs n dev) = kref dev"
  "freed (kill_urbs n dev) = freed dev"
  by (induction n arbitrary: dev) (simp_all add: giveback_fields)

lemma kill_anchored_slots:
  "limit_sem (usb_kill_anchored_urbs dev) = limit_sem dev + length (submitted dev)"
  "submitted (usb_kill_anchored_urbs dev) = []"
  using kill_urbs_slots [of "length (submitted dev)" dev]
  by (simp_all add: usb_kill_anchored_urbs_def)

lemma kill_anchored_fields:
  "disconnected (usb_kill_anchored_urbs dev) = disconnected dev"
  "sniffer (usb_kill_anchored_urbs dev) = sniffer dev"
  "buffer (usb_kill_anchored_urbs dev) = buffer dev"
  "cpu (usb_kill_anchored_urbs dev) = cpu dev"
  "kref (usb_kill_anchored_urbs dev) = kref dev"
  "freed (usb_kill_anchored_urbs dev) = freed dev"
  by (simp_all add: usb_kill_anchored_urbs_def kill_urbs_fields)

lemma wait_conserves:
  "limit_sem (snd (usb_wait_anchor_empty_timeout arr timeout dev))
     + length (submitted (snd (usb_wait_anchor_empty_timeout arr timeout dev)))
   = limit_sem dev + length (submitted dev)"
proof (induction arr timeout dev rule: usb_wait_anchor_empty_timeout.induct)
  case (1 timeout dev)
  then show ?case by simp
next
  case (2 t i st rest timeout dev)
  then show ?case
    using giveback_conserves [of i st dev] by (auto simp add: Let_def)
qed

lemma wait_fields:
  "disconnected (snd (usb_wait_anchor_empty_timeout arr timeout dev)) = disconnected dev"
  "sniffer (snd (usb_wait_anchor_empty_timeout arr timeout dev)) = sniffer dev"
  "buffer (snd (usb_wait_anchor_empty_timeout arr timeout dev)) = buffer dev"
  "cpu (snd (usb_wait_anchor_empty_timeout arr timeout dev)) = cpu dev"
  "kref (snd (usb_wait_anchor_empty_timeout arr timeout dev)) = kref dev"
  "freed (snd (usb_wait_anchor_empty_timeout arr timeout dev)) = freed dev"
  by (induction arr timeout dev rule: usb_wait_anchor_empty_timeout.induct)
     (simp_all add: Let_def giveback_fields)

lemma wait_time_zero:
  "fst (usb_wait_anchor_empty_timeout arr timeout dev) = 0 \<longleftrightarrow>
     submitted (snd (usb_wait_anchor_empty_timeout arr timeout dev)) \<noteq> []"
  by (induction arr timeout dev rule: usb_wait_anchor_empty_timeout.induct)
     (simp_all add: Let_def)

lemma disconnect_post:
  "disconnected (frontpanel_disconnect dev)"
  "submitted (frontpanel_disconnect dev) = []"
  by (simp_all add: frontpanel_disconnect_def kref_put_def frontpanel_delete_def Let_def
      kill_anchored_fields kill_anchored_slots)

subsection \<open>The error latch\<close>

text \<open>
  Claim C1: a completion whose status is one of the unlink codes \<^verbatim>\<open>-ENOENT\<close>,
  \<^verbatim>\<open>-ECONNRESET\<close>, \<^verbatim>\<open>-ESHUTDOWN\<close> is not surfaced as an error and leaves the error
  latch unset, so that the next write sees no error from it. The callback only leaves
  out the log message for these codes: for every device and every URB it stores the
  status in \<^verbatim>\<open>dev->errors\<close>, and the write that follows returns \<^verbatim>\<open>-EIO\<close>.
\<close>

theorem benign_completion_latched:
  "errors (frontpanel_write_bulk_callback (u\<lparr>status := - ENOENT\<rparr>) dev) = - ENOENT \<and>
   errors (frontpanel_write_bulk_callback (u\<lparr>status := - ECONNRESET\<rparr>) dev) = - ECONNRESET \<and>
   errors (frontpanel_write_bulk_callback (u\<lparr>status := - ESHUTDOWN\<rparr>) dev) = - ESHUTDOWN \<and>
   fst (frontpanel_write env
          (frontpanel_write_bulk_callback (u\<lparr>status := - ENOENT\<rparr>) dev) payload count) = - EIO \<and>
   fst (frontpanel_write env
          (frontpanel_write_bulk_callback (u\<lparr>status := - ECONNRESET\<rparr>) dev) payload count) = - EIO \<and>
   fst (frontpanel_write env
          (frontpanel_write_bulk_callback (u\<lparr>status := - ESHUTDOWN\<rparr>) dev) payload count) = - EIO"
  by (simp add: frontpanel_write_eq callback_fields errno_defs)

text \<open>
  Claim C4: after one completion that fails with an error other than the unlink codes
  (a negative status, as the USB core reports errors), the first of two writes returns
  the latched error, \<^verbatim>\<open>-EPIPE\<close> as it is and any other code as \<^verbatim>\<open>-EIO\<close>, and clears
  the latch; the second write sees no latched error: what it returns is decided by
  the allocations, the disconnected flag and the submission alone.
\<close>

theorem latched_error_reported_once:
  assumes "st < 0" and "\<not> benign_status st"
  shows "let dev1 = frontpanel_write_bulk_callback (u\<lparr>status := st\<rparr>) dev;
             (r1, dev2) = frontpanel_write env1 dev1 payload1 count1;
             (r2, dev3) = frontpanel_write env2 dev2 payload2 count2
         in r1 = (if st = - EPIPE then - EPIPE else - EIO) \<and>
            errors dev2 = 0 \<and>
            r2 = (if \<not> urb_alloc_ok env2 \<or> \<not> coherent_alloc_ok env2 then - ENOMEM
                  else if disconnected dev then - ENODEV
                  else if submit_ret env2 \<noteq> 0 then submit_ret env2
                  else int (min count2 PANEL_DATA_SIZE))"
  using assms by (simp add: frontpanel_write_eq callback_fields Let_def)

theorem latched_error_reported_once_witness:
  "- EPROTO < 0 \<and> \<not> benign_status (- EPROTO) \<and>
   fst (frontpanel_write ok_env
          (frontpanel_write_bulk_callback (zero_urb\<lparr>status := - EPROTO\<rparr>) fresh_dev)
          zero_payload 32) = - EIO \<and>
   fst (frontpanel_write ok_env
          (snd (frontpanel_write ok_env
                  (frontpanel_write_bulk_callback (zero_urb\<lparr>status := - EPROTO\<rparr>) fresh_dev)
                  zero_payload 32))
          zero_payload 32) = 32"
proof -
  have h1: "- EPROTO < 0" by (simp add: EPROTO_def)
  have h2: "\<not> benign_status (- EPROTO)" by (simp add: benign_status_def EPROTO_def errno_defs)
  from latched_error_reported_once [OF h1 h2, of zero_urb fresh_dev ok_env zero_payload 32
      ok_env zero_payload 32]
  show ?thesis using h1 h2
    by (simp add: Let_def split_beta fresh_dev_def ok_env_def EPROTO_def errno_defs
        PANEL_DATA_SIZE_def)
qed

subsection \<open>Slots\<close>

lemma write_step_slots:
  "(submitted (snd (frontpanel_write env dev payload count)) = submitted dev \<and>
    limit_sem (snd (frontpanel_write env dev payload count)) = limit_sem dev) \<or>
   (submitted (snd (frontpanel_write env dev payload count)) =
      submitted dev @ [\<lparr>transfer_buffer = take (min count PANEL_DATA_SIZE) payload,
                        transfer_buffer_length = min count PANEL_DATA_SIZE, status = 0\<rparr>] \<and>
    Suc (limit_sem (snd (frontpanel_write env dev payload count))) = limit_sem dev \<and>
    fst (frontpanel_write env dev payload count) = int (min count PANEL_DATA_SIZE))"
  by (simp add: frontpanel_write_eq dev_err_def)

lemma write_conserves:
  "limit_sem (snd (frontpanel_write env dev payload count))
     + length (submitted (snd (frontpanel_write env dev payload count)))
   = limit_sem dev + length (submitted dev)"
  using write_step_slots [of env dev payload count] by auto

lemma draw_down_conserves:
  "limit_sem (frontpanel_draw_down arr dev) + length (submitted (frontpanel_draw_down arr dev))
     = limit_sem dev + length (submitted dev)"
  using wait_conserves [of arr 1000 dev]
  by (simp add: frontpanel_draw_down_def split_beta kill_anchored_slots)

lemma disconnect_conserves:
  "limit_sem (frontpanel_disconnect dev) + length (submitted (frontpanel_disconnect dev))
     = limit_sem dev + length (submitted dev)"
  by (simp add: frontpanel_disconnect_def kref_put_def frontpanel_delete_def Let_def
      kill_anchored_slots rackmeter_stop_cpu_sniffer_def)

lemma fire_conserves:
  "limit_sem (fire dev ev) + length (submitted (fire dev ev))
     = limit_sem dev + length (submitted dev)"
  by (cases ev)
     (simp_all add: write_conserves giveback_conserves draw_down_conserves disconnect_conserves)

lemma step_conserves:
  "limit_sem (step dev ev) + length (submitted (step dev ev))
     = limit_sem dev + length (submitted dev)"
  by (simp add: step_def fire_conserves)

text \<open>
  Only the disconnect touches the reference count, and it frees the structure: on a run
  of a probed device the structure is freed exactly when a disconnect has happened, the
  sampler is then stopped, and nothing acts on the device afterwards.
\<close>

lemma write_kref_freed:
  "kref (snd (frontpanel_write env dev payload count)) = kref dev"
  "freed (snd (frontpanel_write env dev payload count)) = freed dev"
  by (simp_all add: frontpanel_write_eq dev_err_def)

lemma draw_down_kref_freed:
  "kref (frontpanel_draw_down arr dev) = kref dev"
  "freed (frontpanel_draw_down arr dev) = freed dev"
  by (simp_all add: frontpanel_draw_down_def split_beta kill_anchored_fields wait_fields)

lemma disconnect_frees:
  "kref dev = 1 \<Longrightarrow>
     freed (frontpanel_disconnect dev) \<and> \<not> sniffer (frontpanel_disconnect dev)"
  by (simp add: frontpanel_disconnect_def kref_put_def frontpanel_delete_def Let_def
      kill_anchored_fields rackmeter_stop_cpu_sniffer_def)

lemma run_freed: "freed dev \<Longrightarrow> run dev evs = dev"
  unfolding run_def by (induction evs) (simp_all add: step_def)

lemma run_Cons: "run dev (ev # evs) = run (step dev ev) evs"
  by (simp add: run_def)

lemma run_freed_iff:
  assumes "kref dev = 1" and "\<not> freed dev"
  shows "freed (run dev evs) \<longleftrightarrow> Disconnect \<in> set evs"
  using assms
proof (induction evs arbitrary: dev)
  case Nil
  then show ?case by (simp add: run_def)
next
  case (Cons ev evs)
  show ?case
  proof (cases ev)
    case (Write env payload count)
    with Cons.prems Cons.IH [of "step dev ev"] show ?thesis
      by (simp add: run_Cons step_def write_kref_freed)
  next
    case (Complete i st)
    with Cons.prems Cons.IH [of "step dev ev"] show ?thesis
      by (simp add: run_Cons step_def giveback_fields)
  next
    case (Suspend arr)
    with Cons.prems Cons.IH [of "step dev ev"] show ?thesis
      by (simp add: run_Cons step_def draw_down_kref_freed)
  next
    case Disconnect
    with Cons.prems disconnect_frees [of dev] show ?thesis
      by (simp add: run_Cons step_def run_freed)
  qed
qed

lemma probed_run_freed_iff:
  assumes "frontpanel_probe penv = (0, Some dev0)"
  shows "freed (run dev0 evs) \<longleftrightarrow> Disconnect \<in> set evs"
proof -
  have a: "kref (init_cpus cs d) = kref d \<and> freed (init_cpus cs d) = freed d" for cs d
    by (induction cs arbitrary: d) simp_all
  from assms have "kref dev0 = 1" and "\<not> freed dev0"
    by (auto simp add: frontpanel_probe_def rackmeter_init_cpu_sniffer_def a fresh_dev_def
        split: if_splits)
  then show ?thesis by (rule run_freed_iff)
qed

lemma run_conserves:
  "limit_sem (run dev evs) + length (submitted (run dev evs))
     = limit_sem dev + length (submitted dev)"
  unfolding run_def
proof (induction evs arbitrary: dev)
  case Nil
  show ?case by simp
next
  case (Cons ev evs)
  show ?case using Cons.IH [of "step dev ev"] step_conserves [of dev ev] by simp
qed

lemma probe_slots:
  "frontpanel_probe penv = (r, Some dev0) \<Longrightarrow>
     limit_sem dev0 = WRITES_IN_FLIGHT \<and> submitted dev0 = []"
proof -
  have a: "limit_sem (init_cpus cs d) = limit_sem d \<and> submitted (init_cpus cs d) = submitted d"
    for cs d
    by (induction cs arbitrary: d) simp_all
  assume "frontpanel_probe penv = (r, Some dev0)"
  then show ?thesis
    by (auto simp add: frontpanel_probe_def rackmeter_init_cpu_sniffer_def a fresh_dev_def
        split: if_splits)
qed

text \<open>
  Claim C8: slot conservation. A write that does not hand its URB to the USB core leaves
  the semaphore as it found it (the slot it took is given back before it returns, on
  each of the error paths); a write that does hand it over keeps exactly one slot, which
  the completion callback gives back; the USB core completes an anchored URB once, since
  it takes it off the anchor first, and cancelling what is anchored completes each URB
  once. So on every run of a probed device the free slots and the anchored URBs add up
  to the capacity, and when nothing is outstanding all \<^verbatim>\<open>WRITES_IN_FLIGHT\<close> slots
  are free.
\<close>

theorem slot_conservation:
  assumes "frontpanel_probe penv = (0, Some dev0)"
  shows "limit_sem (run dev0 evs) + length (submitted (run dev0 evs)) = WRITES_IN_FLIGHT \<and>
         (if submitted (run dev0 evs) = [] then limit_sem (run dev0 evs) = WRITES_IN_FLIGHT
          else limit_sem (run dev0 evs) < WRITES_IN_FLIGHT) \<and>
         (if length (submitted (snd (frontpanel_write env dev payload count)))
               = Suc (length (submitted dev))
          then Suc (limit_sem (snd (frontpanel_write env dev payload count))) = limit_sem dev
          else limit_sem (snd (frontpanel_write env dev payload count)) = limit_sem dev \<and>
               submitted (snd (frontpanel_write env dev payload count)) = submitted dev) \<and>
         limit_sem (frontpanel_write_bulk_callback u dev) = Suc (limit_sem dev) \<and>
         (if i < length (submitted dev)
          then limit_sem (usb_hcd_giveback_urb i st dev) = Suc (limit_sem dev) \<and>
               Suc (length (submitted (usb_hcd_giveback_urb i st dev))) = length (submitted dev)
          else usb_hcd_giveback_urb i st dev = dev) \<and>
         submitted (usb_kill_anchored_urbs dev) = [] \<and>
         limit_sem (usb_kill_anchored_urbs dev) = limit_sem dev + length (submitted dev)"
proof -
  from probe_slots [OF assms] run_conserves [of dev0 evs]
  have inv: "limit_sem (run dev0 evs) + length (submitted (run dev0 evs)) = WRITES_IN_FLIGHT"
    by simp
  have drained: "if submitted (run dev0 evs) = [] then limit_sem (run dev0 evs) = WRITES_IN_FLIGHT
          else limit_sem (run dev0 evs) < WRITES_IN_FLIGHT"
    using inv by (cases "submitted (run dev0 evs)") auto
  have wr: "if length (submitted (snd (frontpanel_write env dev payload count)))
               = Suc (length (submitted dev))
          then Suc (limit_sem (snd (frontpanel_write env dev payload count))) = limit_sem dev
          else limit_sem (snd (frontpanel_write env dev payload count)) = limit_sem dev \<and>
               submitted (snd (frontpanel_write env dev payload count)) = submitted dev"
    using write_step_slots [of env dev payload count] by auto
  have gb: "if i < length (submitted dev)
          then limit_sem (usb_hcd_giveback_urb i st dev) = Suc (limit_sem dev) \<and>
               Suc (length (submitted (usb_hcd_giveback_urb i st dev))) = length (submitted dev)
          else usb_hcd_giveback_urb i st dev = dev"
    using giveback_slots [of i dev st] by (auto simp add: usb_hcd_giveback_urb_def)
  show ?thesis
    using inv drained wr gb by (simp only: callback_fields kill_anchored_slots simp_thms)
qed

theorem slot_conservation_witness:
  "frontpanel_probe ok_probe_env = (0, Some probed_dev) \<and>
   submitted (run probed_dev
      [Write ok_env zero_payload 32, Write ok_env zero_payload 32, Complete 0 0,
       Write nomem_env zero_payload 32, Suspend [], Disconnect]) = [] \<and>
   limit_sem (run probed_dev
      [Write ok_env zero_payload 32, Write ok_env zero_payload 32, Complete 0 0,
       Write nomem_env zero_payload 32, Suspend [], Disconnect]) = WRITES_IN_FLIGHT"
proof -
  have h: "frontpanel_probe ok_probe_env = (0, Some probed_dev)" by code_simp
  have e: "submitted (run probed_dev
      [Write ok_env zero_payload 32, Write ok_env zero_payload 32, Complete 0 0,
       Write nomem_env zero_payload 32, Suspend [], Disconnect]) = []"
    by (simp add: run_def step_def write_kref_freed giveback_fields draw_down_kref_freed
        probed_dev_def fresh_dev_def disconnect_post)
  from slot_conservation [OF h, of "[Write ok_env zero_payload 32, Write ok_env zero_payload 32,
      Complete 0 0, Write nomem_env zero_payload 32, Suspend [], Disconnect]"] h e
  show ?thesis by simp
qed

lemma writes_snd_Cons:
  "snd (writes ((env, payload, count) # ws) dev)
     = snd (writes ws (snd (frontpanel_write env dev payload count)))"
  "fst (writes ((env, payload, count) # ws) dev)
     = fst (frontpanel_write env dev payload count)
         # fst (writes ws (snd (frontpanel_write env dev payload count)))"
  by (simp_all add: split_beta Let_def)

lemma writes_conserve:
  "limit_sem (snd (writes ws dev)) + length (submitted (snd (writes ws dev)))
     = limit_sem dev + length (submitted dev)"
proof (induction ws arbitrary: dev)
  case Nil
  show ?case by simp
next
  case (Cons w ws)
  obtain env payload count where w: "w = (env, payload, count)" by (cases w) auto
  show ?case
    unfolding w writes_snd_Cons
    using Cons.IH [of "snd (frontpanel_write env dev payload count)"]
      write_conserves [of env dev payload count] by simp
qed

lemma writes_in_flight_bounds:
  "length (submitted dev) \<le> length (submitted (snd (writes ws dev))) \<and>
   length (submitted (snd (writes ws dev))) \<le> length (submitted dev) + length ws"
proof (induction ws arbitrary: dev)
  case Nil
  show ?case by simp
next
  case (Cons w ws)
  obtain env payload count where w: "w = (env, payload, count)" by (cases w) auto
  show ?case
    unfolding w writes_snd_Cons
    using Cons.IH [of "snd (frontpanel_write env dev payload count)"]
      write_step_slots [of env dev payload count] by auto
qed

lemma writes_all_accepted:
  "length (submitted (snd (writes ws dev))) = length (submitted dev) + length ws \<Longrightarrow>
     fst (writes ws dev) = map (\<lambda>(env, payload, count). int (min count PANEL_DATA_SIZE)) ws"
proof (induction ws arbitrary: dev)
  case Nil
  show ?case by simp
next
  case (Cons w ws)
  obtain env payload count where w: "w = (env, payload, count)" by (cases w) auto
  let ?d = "snd (frontpanel_write env dev payload count)"
  from Cons.prems [unfolded w writes_snd_Cons] have tot:
    "length (submitted (snd (writes ws ?d))) = Suc (length (submitted dev) + length ws)"
    by simp
  from writes_in_flight_bounds [of ?d ws] tot
  have ge: "Suc (length (submitted dev)) \<le> length (submitted ?d)" by simp
  with write_step_slots [of env dev payload count]
  have acc: "length (submitted ?d) = Suc (length (submitted dev))"
    and r: "fst (frontpanel_write env dev payload count) = int (min count PANEL_DATA_SIZE)"
    by auto
  from tot acc have "length (submitted (snd (writes ws ?d))) = length (submitted ?d) + length ws"
    by simp
  from Cons.IH [OF this] r show ?case
    unfolding w writes_snd_Cons by simp
qed

text \<open>
  Claim C5, as amended: with all \<^verbatim>\<open>WRITES_IN_FLIGHT\<close> = 8 slots free, each of eight
  writes in a row, with no completion between them, finds a free slot; if all eight are
  handed to the USB core, each has returned its size, no slot is left, and a ninth write
  returns \<^verbatim>\<open>-EAGAIN\<close> at once and leaves the device exactly as it was; if one of the
  eight failed before it was handed over, it has given its slot back and the ninth
  write finds a slot free.
\<close>

theorem ninth_write_would_block:
  assumes "limit_sem dev = WRITES_IN_FLIGHT" and "length ws = WRITES_IN_FLIGHT"
  shows "(\<forall>k < WRITES_IN_FLIGHT. 0 < limit_sem (snd (writes (take k ws) dev))) \<and>
         (length (submitted (snd (writes ws dev))) = length (submitted dev) + WRITES_IN_FLIGHT
          \<longrightarrow> fst (writes ws dev)
                = map (\<lambda>(env, payload, count). int (min count PANEL_DATA_SIZE)) ws \<and>
              limit_sem (snd (writes ws dev)) = 0 \<and>
              frontpanel_write env (snd (writes ws dev)) payload count
                = (- EAGAIN, snd (writes ws dev))) \<and>
         (length (submitted (snd (writes ws dev))) < length (submitted dev) + WRITES_IN_FLIGHT
          \<longrightarrow> 0 < limit_sem (snd (writes ws dev)))"
proof (intro conjI allI impI)
  fix k assume k: "k < WRITES_IN_FLIGHT"
  let ?d = "snd (writes (take k ws) dev)"
  from writes_in_flight_bounds [of dev "take k ws"] k assms(2)
  have "length (submitted ?d) \<le> length (submitted dev) + k" by simp
  with writes_conserve [of "take k ws" dev] assms(1) k
  show "0 < limit_sem ?d" by simp
next
  assume all: "length (submitted (snd (writes ws dev))) = length (submitted dev) + WRITES_IN_FLIGHT"
  with assms(2) show "fst (writes ws dev)
      = map (\<lambda>(env, payload, count). int (min count PANEL_DATA_SIZE)) ws"
    by (simp add: writes_all_accepted)
  from all writes_conserve [of ws dev] assms(1)
  show z: "limit_sem (snd (writes ws dev)) = 0" by simp
  then show "frontpanel_write env (snd (writes ws dev)) payload count
                = (- EAGAIN, snd (writes ws dev))"
    by (simp add: frontpanel_write_eq)
next
  assume "length (submitted (snd (writes ws dev))) < length (submitted dev) + WRITES_IN_FLIGHT"
  with writes_conserve [of ws dev] assms(1)
  show "0 < limit_sem (snd (writes ws dev))" by simp
qed

theorem ninth_write_would_block_witness:
  "limit_sem fresh_dev = WRITES_IN_FLIGHT \<and>
   length (replicate 8 (ok_env, zero_payload, 32::nat)) = WRITES_IN_FLIGHT \<and>
   fst (writes (replicate 8 (ok_env, zero_payload, 32)) fresh_dev) = replicate 8 32 \<and>
   length (submitted (snd (writes (replicate 8 (ok_env, zero_payload, 32)) fresh_dev))) = 8 \<and>
   fst (frontpanel_write ok_env
          (snd (writes (replicate 8 (ok_env, zero_payload, 32)) fresh_dev)) zero_payload 32)
     = - EAGAIN"
proof -
  have h1: "limit_sem fresh_dev = WRITES_IN_FLIGHT" by (simp add: fresh_dev_def)
  have h2: "length (replicate 8 (ok_env, zero_payload, 32::nat)) = WRITES_IN_FLIGHT"
    by (simp add: WRITES_IN_FLIGHT_def)
  have ev: "length (submitted (snd (writes (replicate 8 (ok_env, zero_payload, 32)) fresh_dev))) = 8"
    by code_simp
  from ninth_write_would_block [OF h1 h2, of ok_env zero_payload 32] ev
  show ?thesis using h1 h2
    by (simp add: fresh_dev_def WRITES_IN_FLIGHT_def PANEL_DATA_SIZE_def del: writes.simps)
qed

text \<open>
  Claim C5 as stated (the ninth of any nine writes with no completion between them
  returns \<^verbatim>\<open>-EAGAIN\<close>) fails: on a probed device, when the first write fails for
  lack of memory and the next seven are accepted, nothing has completed and the ninth
  write is accepted too and returns 32.
\<close>

theorem ninth_write_would_block_counterexample:
  "frontpanel_probe ok_probe_env = (0, Some probed_dev) \<and>
   length one_failed_writes = WRITES_IN_FLIGHT \<and>
   fst (writes one_failed_writes probed_dev) = [- ENOMEM, 32, 32, 32, 32, 32, 32, 32] \<and>
   length (submitted (snd (writes one_failed_writes probed_dev))) = 7 \<and>
   limit_sem (snd (writes one_failed_writes probed_dev)) = 1 \<and>
   fst (frontpanel_write ok_env (snd (writes one_failed_writes probed_dev)) zero_payload 32)
     = 32 \<and>
   fst (frontpanel_write ok_env (snd (writes one_failed_writes probed_dev)) zero_payload 32)
     \<noteq> - EAGAIN"
  by code_simp

subsection \<open>Truncation\<close>

text \<open>
  Claim C10: of a payload of \<open>count\<close> bytes a write copies the first
  \<open>min count 32\<close>, never more than \<^verbatim>\<open>PANEL_DATA_SIZE\<close>, into the URB it hands to the
  USB core; a write that hands its URB over returns \<open>min count 32\<close>; and a longer
  payload is not rejected: whenever a slot is free, no error is latched, the allocations
  succeed, the device is connected and the submission is accepted, the write succeeds
  whatever \<open>count\<close> is.
\<close>

theorem write_truncates:
  assumes "count \<le> length payload"
  shows "(submitted (snd (frontpanel_write env dev payload count)) = submitted dev \<or>
          submitted (snd (frontpanel_write env dev payload count))
            = submitted dev @ [\<lparr>transfer_buffer = take PANEL_DATA_SIZE (take count payload),
                                transfer_buffer_length = min count PANEL_DATA_SIZE,
                                status = 0\<rparr>] \<and>
          fst (frontpanel_write env dev payload count) = int (min count PANEL_DATA_SIZE)) \<and>
         length (take PANEL_DATA_SIZE (take count payload)) = min count PANEL_DATA_SIZE \<and>
         min count PANEL_DATA_SIZE \<le> 32 \<and>
         (if 0 < limit_sem dev \<and> 0 \<le> errors dev \<and> urb_alloc_ok env \<and> coherent_alloc_ok env \<and>
             \<not> disconnected dev \<and> submit_ret env = 0
          then fst (frontpanel_write env dev payload count) = int (min count PANEL_DATA_SIZE) \<and>
               length (submitted (snd (frontpanel_write env dev payload count)))
                 = Suc (length (submitted dev))
          else fst (frontpanel_write env dev payload count) \<noteq> 0 \<and>
               submitted (snd (frontpanel_write env dev payload count)) = submitted dev)"
proof -
  have tk: "take (min count PANEL_DATA_SIZE) payload = take PANEL_DATA_SIZE (take count payload)"
    by (simp add: min.commute)
  have a: "submitted (snd (frontpanel_write env dev payload count)) = submitted dev \<or>
          submitted (snd (frontpanel_write env dev payload count))
            = submitted dev @ [\<lparr>transfer_buffer = take PANEL_DATA_SIZE (take count payload),
                                transfer_buffer_length = min count PANEL_DATA_SIZE,
                                status = 0\<rparr>] \<and>
          fst (frontpanel_write env dev payload count) = int (min count PANEL_DATA_SIZE)"
    using write_step_slots [of env dev payload count] unfolding tk by blast
  have b: "length (take PANEL_DATA_SIZE (take count payload)) = min count PANEL_DATA_SIZE"
    using assms by (simp add: min.commute)
  have c: "min count PANEL_DATA_SIZE \<le> 32" by (simp add: PANEL_DATA_SIZE_def)
  have d: "if 0 < limit_sem dev \<and> 0 \<le> errors dev \<and> urb_alloc_ok env \<and> coherent_alloc_ok env \<and>
             \<not> disconnected dev \<and> submit_ret env = 0
          then fst (frontpanel_write env dev payload count) = int (min count PANEL_DATA_SIZE) \<and>
               length (submitted (snd (frontpanel_write env dev payload count)))
                 = Suc (length (submitted dev))
          else fst (frontpanel_write env dev payload count) \<noteq> 0 \<and>
               submitted (snd (frontpanel_write env dev payload count)) = submitted dev"
    by (auto simp add: frontpanel_write_eq dev_err_def errno_defs)
  from a b c d show ?thesis by blast
qed

theorem write_truncates_witness:
  "(40::nat) \<le> length (replicate 40 (7::u8)) \<and>
   frontpanel_write ok_env fresh_dev (replicate 40 7) 40
     = (32, fresh_dev\<lparr>limit_sem := 7,
                      submitted := [\<lparr>transfer_buffer = replicate 32 7,
                                     transfer_buffer_length = 32, status = 0\<rparr>]\<rparr>)"
proof -
  have h: "(40::nat) \<le> length (replicate 40 (7::u8))" by simp
  from write_truncates [OF h, of ok_env fresh_dev]
  show ?thesis using h
    by (simp add: frontpanel_write_eq fresh_dev_def ok_env_def PANEL_DATA_SIZE_def
        WRITES_IN_FLIGHT_def)
qed

subsection \<open>Suspend\<close>

lemma wait_takeWhile:
  "snd (usb_wait_anchor_empty_timeout (takeWhile (\<lambda>a. fst a \<le> timeout) arr) timeout dev)
     = snd (usb_wait_anchor_empty_timeout arr timeout dev)"
  by (induction arr timeout dev rule: usb_wait_anchor_empty_timeout.induct)
     (auto simp add: Let_def)

lemma draw_down_eq:
  "frontpanel_draw_down arr dev =
     (let dev1 = snd (usb_wait_anchor_empty_timeout arr 1000 dev)
      in if submitted dev1 = [] then dev1 else usb_kill_anchored_urbs dev1)"
  using wait_time_zero [of arr 1000 dev]
  by (auto simp add: frontpanel_draw_down_def split_beta Let_def)

text \<open>
  Claim C9: suspend waits at most 1000 ms for the anchored URBs to complete (what
  arrives later plays no part), cancels what is left only if the wait ran out with the
  anchor still occupied, leaves nothing anchored, and changes neither the disconnected
  flag nor the scheduling of the sampler.
\<close>

theorem suspend_bounded_drain:
  "frontpanel_suspend arr None = (0, None) \<and>
   frontpanel_suspend arr (Some dev) = (0, Some (frontpanel_draw_down arr dev)) \<and>
   disconnected (frontpanel_draw_down arr dev) = disconnected dev \<and>
   sniffer (frontpanel_draw_down arr dev) = sniffer dev \<and>
   submitted (frontpanel_draw_down arr dev) = [] \<and>
   frontpanel_draw_down arr dev
     = frontpanel_draw_down (takeWhile (\<lambda>a. fst a \<le> 1000) arr) dev \<and>
   frontpanel_draw_down arr dev
     = (if submitted (snd (usb_wait_anchor_empty_timeout arr 1000 dev)) = []
        then snd (usb_wait_anchor_empty_timeout arr 1000 dev)
        else usb_kill_anchored_urbs (snd (usb_wait_anchor_empty_timeout arr 1000 dev)))"
proof -
  have fr: "disconnected (frontpanel_draw_down arr dev) = disconnected dev"
    "sniffer (frontpanel_draw_down arr dev) = sniffer dev"
    by (simp_all add: draw_down_eq Let_def kill_anchored_fields wait_fields)
  have em: "submitted (frontpanel_draw_down arr dev) = []"
    by (simp add: draw_down_eq Let_def kill_anchored_slots)
  have tw: "frontpanel_draw_down arr dev
     = frontpanel_draw_down (takeWhile (\<lambda>a. fst a \<le> 1000) arr) dev"
    by (simp only: draw_down_eq wait_takeWhile)
  show ?thesis
    using fr em tw by (simp add: frontpanel_suspend_def draw_down_eq Let_def)
qed

theorem suspend_bounded_drain_witness:
  "frontpanel_suspend [(200, 0, 0), (400, 0, 0)] (Some two_in_flight_dev)
     = (0, Some fresh_dev) \<and>
   frontpanel_suspend [] (Some two_in_flight_dev)
     = (0, Some (usb_kill_anchored_urbs two_in_flight_dev)) \<and>
   frontpanel_suspend [(200, 0, 0), (1400, 0, 0)] (Some two_in_flight_dev)
     = (0, Some (fresh_dev\<lparr>errors := - ENOENT\<rparr>)) \<and>
   usb_kill_anchored_urbs two_in_flight_dev = fresh_dev\<lparr>errors := - ENOENT\<rparr>"
proof -
  have a: "frontpanel_draw_down [(200, 0, 0), (400, 0, 0)] two_in_flight_dev = fresh_dev"
    by (simp add: frontpanel_draw_down_def two_in_flight_dev_def usb_hcd_giveback_urb_def
        usb_unanchor_urb_def frontpanel_write_bulk_callback_def up_def zero_urb_def
        fresh_dev_def Let_def WRITES_IN_FLIGHT_def)
  have b: "frontpanel_draw_down [] two_in_flight_dev = usb_kill_anchored_urbs two_in_flight_dev"
    by (simp add: frontpanel_draw_down_def two_in_flight_dev_def)
  have c: "frontpanel_draw_down [(200, 0, 0), (1400, 0, 0)] two_in_flight_dev
             = fresh_dev\<lparr>errors := - ENOENT\<rparr>"
    by (simp add: frontpanel_draw_down_def two_in_flight_dev_def usb_hcd_giveback_urb_def
        usb_unanchor_urb_def frontpanel_write_bulk_callback_def up_def zero_urb_def
        fresh_dev_def Let_def WRITES_IN_FLIGHT_def usb_kill_anchored_urbs_def benign_status_def)
  have d: "usb_kill_anchored_urbs two_in_flight_dev = fresh_dev\<lparr>errors := - ENOENT\<rparr>"
    by (simp add: two_in_flight_dev_def usb_kill_anchored_urbs_def usb_hcd_giveback_urb_def
        usb_unanchor_urb_def frontpanel_write_bulk_callback_def up_def zero_urb_def
        fresh_dev_def Let_def WRITES_IN_FLIGHT_def benign_status_def eval_nat_numeral)
  note t1 = suspend_bounded_drain [of "[(200, 0, 0), (400, 0, 0)]" two_in_flight_dev,
      THEN conjunct2, THEN conjunct1]
  note t2 = suspend_bounded_drain [of "[]" two_in_flight_dev, THEN conjunct2, THEN conjunct1]
  note t3 = suspend_bounded_drain [of "[(200, 0, 0), (1400, 0, 0)]" two_in_flight_dev,
      THEN conjunct2, THEN conjunct1]
  show ?thesis
    by (simp only: t1 t2 t3 a b c d simp_thms)
qed

subsection \<open>The load of a core\<close>

lemma sint_nonneg_uint:
  fixes x :: u64
  assumes "0 \<le>s x"
  shows "sint x = uint x"
proof -
  from assms have nn: "0 \<le> sint x" by (simp add: word_sle_eq)
  have "sint x < 2 ^ 64" using sint_lt [of x] by simp
  with nn have "take_bit 64 (sint x) = sint x" by (simp add: take_bit_int_eq_self)
  then show ?thesis using uint_sint [of x] by simp
qed

lemma load_quotient_le:
  fixes w i :: u64
  assumes i0: "0 \<le>s i" and iw: "i \<le>s w" and w0: "w \<noteq> 0"
  shows "unat ((255 * (w - i)) div w) \<le> 255"
proof -
  from i0 iw have w0s: "0 \<le>s w" by (simp add: word_sle_eq)
  from i0 have si: "sint i = uint i" by (rule sint_nonneg_uint)
  from w0s have sw: "sint w = uint w" by (rule sint_nonneg_uint)
  from iw si sw have le: "i \<le> w" by (simp add: word_sle_eq word_le_def)
  then have d: "unat (w - i) = unat w - unat i" by (rule unat_sub)
  have "unat (255 * (w - i)) = (unat (255 :: u64) * unat (w - i)) mod 2 ^ LENGTH(64)"
    by (rule unat_word_ariths(2))
  also have "\<dots> \<le> unat (255 :: u64) * unat (w - i)" by (rule mod_less_eq_dividend)
  also have "\<dots> = 255 * unat (w - i)" by simp
  also have "\<dots> \<le> 255 * unat w" using d by simp
  finally have num: "unat (255 * (w - i)) \<le> 255 * unat w" .
  from w0 have wpos: "0 < unat w" by (simp add: unat_gt_0)
  have "unat ((255 * (w - i)) div w) = unat (255 * (w - i)) div unat w"
    by (rule unat_div)
  also have "\<dots> \<le> (255 * unat w) div unat w" using num by (rule div_le_mono)
  also have "\<dots> = 255" using wpos by simp
  finally show ?thesis .
qed

lemma clamp_ge:
  "diff_idle_of rcpu cpu_idle \<le>s diff_wall_of rcpu cpu_idle cpu_wall"
  by (simp add: diff_wall_of_def Let_def word_sle_eq word_sless_alt)

text \<open>
  Claim C7: when the idle counter has not gone backwards (\<open>diff_idle\<close> is not negative
  as an \<^verbatim>\<open>s64\<close>) and \<open>diff_wall\<close> after the clamp is not zero, the load is computed
  and lies in 0..255, also where the product wraps; and when the idle difference exceeds
  the wall difference, the clamp makes the two equal and the load is 0.
\<close>

theorem load_in_range:
  assumes "0 \<le>s diff_idle_of rcpu cpu_idle"
    and "diff_wall_of rcpu cpu_idle cpu_wall \<noteq> 0"
  shows "\<exists>load. rackmeter_load rcpu cpu_idle cpu_wall = Inr load \<and> unat load \<le> 255 \<and>
           (cpu_wall - prev_wall rcpu <s diff_idle_of rcpu cpu_idle \<longrightarrow>
              diff_wall_of rcpu cpu_idle cpu_wall = diff_idle_of rcpu cpu_idle \<and> load = 0)"
proof -
  let ?i = "diff_idle_of rcpu cpu_idle"
  let ?w = "diff_wall_of rcpu cpu_idle cpu_wall"
  let ?q = "(255 * (?w - ?i)) div ?w"
  have q: "unat ?q \<le> 255"
    using assms(1) clamp_ge assms(2) by (rule load_quotient_le)
  have eq: "rackmeter_load rcpu cpu_idle cpu_wall = Inr (ucast ?q)"
    using assms(2) by (simp add: rackmeter_load_def div64_u64_def Let_def)
  have "unat (ucast ?q :: u32) = take_bit LENGTH(32) (unat ?q)"
    by (rule unsigned_ucast_eq)
  also have "\<dots> = unat ?q"
    using q by (simp add: take_bit_nat_eq_self)
  finally have "unat (ucast ?q :: u32) = unat ?q" .
  with q have b: "unat (ucast ?q :: u32) \<le> 255" by simp
  have z: "cpu_wall - prev_wall rcpu <s ?i \<longrightarrow> ?w = ?i \<and> (ucast ?q :: u32) = 0"
    by (simp add: diff_wall_of_def Let_def)
  from eq b z show ?thesis by simp
qed

theorem load_in_range_witness:
  "0 \<le>s diff_idle_of \<lparr>prev_wall = 0, prev_idle = 0\<rparr> 250 \<and>
   diff_wall_of \<lparr>prev_wall = 0, prev_idle = 0\<rparr> 250 1000 \<noteq> 0 \<and>
   rackmeter_load \<lparr>prev_wall = 0, prev_idle = 0\<rparr> 250 1000 = Inr 191 \<and>
   rackmeter_load \<lparr>prev_wall = 0, prev_idle = 0\<rparr> 1000 250 = Inr 0"
proof -
  have h1: "0 \<le>s diff_idle_of \<lparr>prev_wall = 0, prev_idle = 0\<rparr> 250"
    by (simp add: diff_idle_of_def word_sle_eq)
  have h2: "diff_wall_of \<lparr>prev_wall = 0, prev_idle = 0\<rparr> 250 1000 \<noteq> 0"
    by (simp add: diff_wall_of_def diff_idle_of_def)
  have e1: "rackmeter_load \<lparr>prev_wall = 0, prev_idle = 0\<rparr> 250 1000 = Inr 191"
    by code_simp
  have e2: "rackmeter_load \<lparr>prev_wall = 0, prev_idle = 0\<rparr> 1000 250 = Inr 0"
    by code_simp
  from load_in_range [OF h1 h2] h1 h2 e1 e2 show ?thesis by simp
qed

subsection \<open>The sampler cycle\<close>

lemma do_cpu_buffer:
  assumes "rackmeter_do_cpu env c (dev, upd) = Inr (dev', upd')"
    and "16 \<le> length (buffer dev)"
  shows "length (buffer dev') = length (buffer dev) \<and>
         (\<forall>j. j \<noteq> c \<longrightarrow> buffer dev' ! j = buffer dev ! j) \<and>
         (upd' \<longleftrightarrow> upd \<or> buffer dev' ! c \<noteq> buffer dev ! c)"
  using assms
  by (auto simp add: rackmeter_do_cpu_def Let_def split_beta split: if_splits sum.splits)

lemma cpu_loop_buffer:
  assumes "distinct cs"
    and "rackmeter_cpu_loop env cs (dev, upd) = Inr (dev', upd')"
    and "16 \<le> length (buffer dev)"
  shows "length (buffer dev') = length (buffer dev) \<and>
         (\<forall>j. j \<notin> set cs \<longrightarrow> buffer dev' ! j = buffer dev ! j) \<and>
         (upd' \<longleftrightarrow> upd \<or> buffer dev' \<noteq> buffer dev)"
  using assms
proof (induction cs arbitrary: dev upd)
  case Nil
  then show ?case by simp
next
  case (Cons c cs)
  from Cons.prems(2) obtain d1 u1 where
    s1: "rackmeter_do_cpu env c (dev, upd) = Inr (d1, u1)" and
    r1: "rackmeter_cpu_loop env cs (d1, u1) = Inr (dev', upd')"
    by (auto split: sum.splits)
  note a = do_cpu_buffer [OF s1 Cons.prems(3)]
  from a Cons.prems(3) have l1: "16 \<le> length (buffer d1)" by simp
  from Cons.prems(1) have dc: "distinct cs" and cn: "c \<notin> set cs" by simp_all
  note b = Cons.IH [OF dc r1 l1]
  from b cn have same_c: "buffer dev' ! c = buffer d1 ! c" by simp
  have len: "length (buffer dev') = length (buffer dev)" using a b by simp
  have oth: "\<forall>j. j \<notin> set (c # cs) \<longrightarrow> buffer dev' ! j = buffer dev ! j" using a b by simp
  have d1_eq: "buffer d1 ! c = buffer dev ! c \<Longrightarrow> buffer d1 = buffer dev"
    using a by (auto intro: nth_equalityI)
  have upd_iff: "upd' \<longleftrightarrow> upd \<or> buffer dev' \<noteq> buffer dev"
  proof (cases "buffer d1 ! c = buffer dev ! c")
    case True
    with d1_eq a b show ?thesis by simp
  next
    case False
    with same_c have "buffer dev' \<noteq> buffer dev" by auto
    with False a b show ?thesis by simp
  qed
  from len oth upd_iff show ?case by blast
qed

lemma distinct_online: "distinct (online_cpus env)"
  by (simp add: online_cpus_def)

lemma write_buffer:
  "buffer (snd (frontpanel_write env dev payload count)) = buffer dev"
  by (simp add: frontpanel_write_eq dev_err_def)

text \<open>
  Claim C6, as amended: in a cycle whose loop over the cores completes, no write is made
  when the payload buffer after the loop equals the buffer as the previous cycle left
  it (whether or not that payload was ever handed to the USB core); when a byte
  changed, \<^verbatim>\<open>frontpanel_write\<close> is called exactly once, with the whole buffer of
  \<^verbatim>\<open>PANEL_DATA_SIZE\<close> bytes, and a result that is not positive is logged and not
  retried.
\<close>

theorem timer_writes_iff_buffer_changed:
  assumes "length (buffer dev) = PANEL_DATA_SIZE"
    and "rackmeter_do_timer env dev = Inr (dev', calls)"
  shows "length (buffer dev') = PANEL_DATA_SIZE \<and>
         (if buffer dev' = buffer dev then calls = []
          else \<exists>ret. calls = [(buffer dev', PANEL_DATA_SIZE, ret)] \<and>
                 (ret \<le> 0 \<longrightarrow> dmesg dev' \<noteq> [] \<and> last (dmesg dev') = Write_failed ret))"
proof -
  from assms(2) obtain dev1 updated where
    lp: "rackmeter_cpu_loop env (online_cpus env) (dev, False) = Inr (dev1, updated)"
    by (auto simp add: rackmeter_do_timer_def split: sum.splits)
  from assms(1) have l16: "16 \<le> length (buffer dev)" by (simp add: PANEL_DATA_SIZE_def)
  note inv = cpu_loop_buffer [OF distinct_online lp l16]
  show ?thesis
  proof (cases updated)
    case False
    with assms(2) lp have "dev' = dev1\<lparr>sniffer := True\<rparr>" and "calls = []"
      by (simp_all add: rackmeter_do_timer_def)
    with inv False assms(1) show ?thesis by simp
  next
    case True
    let ?w = "frontpanel_write (wenv env) dev1 (buffer dev1) PANEL_DATA_SIZE"
    from True assms(2) lp have
      d: "dev' = (if fst ?w \<le> 0 then dev_err (Write_failed (fst ?w)) (snd ?w) else snd ?w)
                   \<lparr>sniffer := True\<rparr>"
      and c: "calls = [(buffer dev1, PANEL_DATA_SIZE, fst ?w)]"
      by (simp_all add: rackmeter_do_timer_def split_beta Let_def)
    from d have bd: "buffer dev' = buffer dev1" by (simp add: write_buffer dev_err_def)
    from d have lg: "fst ?w \<le> 0 \<Longrightarrow> dmesg dev' \<noteq> [] \<and> last (dmesg dev') = Write_failed (fst ?w)"
      by (simp add: dev_err_def)
    from inv True bd c lg assms(1) show ?thesis by auto
  qed
qed

theorem timer_writes_iff_buffer_changed_witness:
  "length (buffer fresh_dev) = PANEL_DATA_SIZE \<and>
   rackmeter_do_timer (core0_env 0 1000 ok_env) fresh_dev
     = Inr (cycle1_dev, [(lit_payload, 32, 32)]) \<and>
   buffer cycle1_dev \<noteq> buffer fresh_dev \<and> buffer cycle1_dev = lit_payload"
proof -
  have h1: "length (buffer fresh_dev) = PANEL_DATA_SIZE" by code_simp
  have h2: "rackmeter_do_timer (core0_env 0 1000 ok_env) fresh_dev
     = Inr (cycle1_dev, [(lit_payload, 32, 32)])" by code_simp
  have h3: "buffer cycle1_dev \<noteq> buffer fresh_dev" by code_simp
  have h4: "buffer cycle1_dev = lit_payload" by code_simp
  from timer_writes_iff_buffer_changed [OF h1 h2] h1 h2 h3 h4 show ?thesis by simp
qed

text \<open>
  Claim C6 as stated compares with the last emitted payload. The code compares with the
  buffer: after a cycle whose write failed, a cycle that computes the payload emitted
  last writes it again, and a cycle that computes the payload of the failed write does
  not write, although it differs from the payload emitted last.
\<close>

theorem timer_compares_with_buffer_counterexample:
  "rackmeter_do_timer (core0_env 0 1000 ok_env) fresh_dev
     = Inr (cycle1_dev, [(lit_payload, 32, 32)]) \<and>
   rackmeter_do_timer (core0_env 1000 2000 nomem_env) cycle1_dev
     = Inr (cycle2_dev, [(zero_payload, 32, - ENOMEM)]) \<and>
   map transfer_buffer (submitted cycle2_dev) = [lit_payload] \<and>
   rackmeter_do_timer (core0_env 1000 3000 ok_env) cycle2_dev
     = Inr (cycle3_dev, [(lit_payload, 32, 32)]) \<and>
   buffer cycle3_dev = lit_payload \<and>
   rackmeter_do_timer (core0_env 2000 3000 ok_env) cycle2_dev = Inr (cycle3_dev_idle, []) \<and>
   buffer cycle3_dev_idle \<noteq> lit_payload"
  by code_simp

text \<open>
  Claim C2: when \<open>diff_wall\<close> is zero for a core, the cycle skips that core without
  dividing by zero. The code has the clamp but no test for zero: in a cycle that reads
  the same counters as the cycle before, \<^verbatim>\<open>div64_u64\<close> is called with divisor 0.
\<close>

theorem timer_divides_by_zero:
  "rackmeter_do_timer (core0_env 0 1000 ok_env) fresh_dev
     = Inr (cycle1_dev, [(lit_payload, 32, 32)]) \<and>
   rackmeter_do_timer (core0_env 0 1000 ok_env) cycle1_dev = Inl Divide_error"
  by code_simp

end
